theory Spec2Isabelle
  imports Main "HOL-Library.Word"
begin

unbundle bit_operations_syntax

section \<open>Machine integers and the text sink\<close>

text \<open>
  The C types of \<^verbatim>\<open>io_uring/fdinfo.c\<close>: \<^verbatim>\<open>unsigned int\<close> and \<^verbatim>\<open>u32\<close> are 32-bit words whose
  arithmetic wraps, \<^verbatim>\<open>int\<close> is a 32-bit word read with \<open>sint\<close>, \<^verbatim>\<open>u8\<close>, \<^verbatim>\<open>u16\<close> and
  \<^verbatim>\<open>u64\<close> likewise. A pointer that some code of the file tests against NULL is an
  \<open>option\<close>; an array reached through a pointer is the memory behind it, a function from
  the index to the element.
\<close>

type_synonym u8 = "8 word"
type_synonym u16 = "16 word"
type_synonym u32 = "32 word"
type_synonym u64 = "64 word"
type_synonym s32 = "32 word"

definition NL :: char where
  "NL = CHR 0x0A"

definition TAB :: char where
  "TAB = CHR 0x09"

text \<open>
  Modelled from the spec: the "formatted line" append of the output sink
  (\<^verbatim>\<open>seq_printf\<close>, \<^verbatim>\<open>seq_puts\<close> and \<^verbatim>\<open>pr_warn\<close>; their code, \<^verbatim>\<open>lib/vsprintf.c\<close> and
  \<^verbatim>\<open>fs/seq_file.c\<close>, is not under src/). The sink is the text written so far, and the
  conversions are those of C: \<^verbatim>\<open>%u\<close>, \<^verbatim>\<open>%llu\<close> (decimal), \<^verbatim>\<open>%x\<close>, \<^verbatim>\<open>%llx\<close> (lower-case
  hexadecimal), \<^verbatim>\<open>%d\<close> (signed decimal) and \<^verbatim>\<open>%5u\<close> (decimal, padded with blanks on the
  left to five characters).
\<close>

type_synonym seq_file = string

definition digit_char :: "nat \<Rightarrow> char" where
  "digit_char d = ''0123456789abcdef'' ! d"

fun fmt_u :: "nat \<Rightarrow> string" where
  "fmt_u n = (if n < 10 then [digit_char n] else fmt_u (n div 10) @ [digit_char (n mod 10)])"

fun fmt_x :: "nat \<Rightarrow> string" where
  "fmt_x n = (if n < 16 then [digit_char n] else fmt_x (n div 16) @ [digit_char (n mod 16)])"

declare fmt_u.simps [simp del] fmt_x.simps [simp del]

definition fmt_d :: "int \<Rightarrow> string" where
  "fmt_d z = (if z < 0 then CHR ''-'' # fmt_u (nat (- z)) else fmt_u (nat z))"

definition fmt_5u :: "nat \<Rightarrow> string" where
  "fmt_5u n = replicate (5 - length (fmt_u n)) CHR '' '' @ fmt_u n"

text \<open>The number of lines of a text: its newline characters.\<close>

definition nlines :: "string \<Rightarrow> nat" where
  "nlines s = count_list s NL"

section \<open>The ring, as the reporter and the dumper read it\<close>

text \<open>
  A 64-byte submission slot. The layout of \<^verbatim>\<open>struct io_uring_sqe\<close> is in the uapi header,
  not under src/: the slot carries the fields the reporter prints and, apart from them,
  its bytes read as \<^verbatim>\<open>u64\<close> words (\<open>sqe_words\<close>), which is how the reporter reads the
  second half of a 128-byte entry (\<^verbatim>\<open>(void *)(sqe + 1)\<close>).
\<close>

record io_uring_sqe =
  sqe_opcode :: u8
  sqe_flags :: u8
  sqe_fd :: s32
  sqe_off :: u64
  sqe_addr :: u64
  sqe_rw_flags :: u32
  sqe_buf_index :: u16
  sqe_user_data :: u64
  sqe_words :: "nat \<Rightarrow> u64"

text \<open>
  A completion slot; \<open>big_cqe\<close> is the flexible array at its end, the memory that follows
  the 16-byte entry.
\<close>

record io_uring_cqe =
  cqe_user_data :: u64
  cqe_res :: s32
  cqe_flags :: u32
  big_cqe :: "nat \<Rightarrow> u64"

record io_rings =
  r_sq_head :: u32
  r_sq_tail :: u32
  r_cq_head :: u32
  r_cq_tail :: u32
  cqes :: "nat \<Rightarrow> io_uring_cqe"

text \<open>A task: its pid and its \<^verbatim>\<open>task_works\<close> chain, each callback by the address of its function.\<close>

record task_struct =
  pid :: s32
  task_works :: "nat list"

record io_uring_task =
  task :: task_struct

record io_kiocb =
  req_opcode :: u8
  req_flags :: u64
  req_user_data :: u64
  refs :: s32
  poll_refs :: s32
  tctx :: "io_uring_task option"
  work_cancel_seq :: s32
  cancel_seq_set :: bool
  io_task_work_func :: nat

record io_sq_data =
  thread :: "task_struct option"
  task_pid :: s32
  sq_cpu :: s32
  work_time :: u64

record io_mapped_ubuf =
  ubuf :: u64
  len :: u32

text \<open>
  A node of a registered table. \<open>file_ptr\<close> is the file of a file slot (the address of
  its \<^verbatim>\<open>struct file\<close>), \<open>buf\<close> the buffer of a buffer slot.
\<close>

record io_rsrc_node =
  file_ptr :: "nat option"
  buf :: "io_mapped_ubuf option"

record io_rsrc_data =
  nr :: u32
  nodes :: "nat \<Rightarrow> io_rsrc_node option"

record io_hash_table =
  hash_bits :: u32
  hbs :: "nat \<Rightarrow> io_kiocb list"

text \<open>
  \<^verbatim>\<open>struct io_ring_ctx\<close>, the fields that fdinfo.c reads. \<open>uring_lock\<close> is the mutex: the
  task that holds it, if any.
\<close>

record io_ring_ctx =
  ctx_flags :: u32
  sq_entries :: u32
  cq_entries :: u32
  rings :: "io_rings option"
  sq_array :: "nat \<Rightarrow> u32"
  sq_sqes :: "nat \<Rightarrow> io_uring_sqe"
  cached_sq_head :: u32
  cached_cq_tail :: u32
  sq_data :: io_sq_data
  file_table :: io_rsrc_data
  buf_table :: io_rsrc_data
  cancel_table :: io_hash_table
  cq_overflow_list :: "io_uring_cqe list"
  work_llist :: "io_kiocb list"
  retry_llist :: "io_kiocb list"
  fallback_llist :: "io_kiocb list"
  defer_list :: "io_kiocb list"
  nr_req_allocated :: u32
  cancel_seq :: s32
  napi_track_mode :: u32
  napi_busy_poll_dt :: u64
  napi_prefer_busy_poll :: bool
  uring_lock :: "nat option"

text \<open>
  What fdinfo.c takes from headers and files that are not under src/, as parameters:
  the flag bits and the opcode count of \<^verbatim>\<open>uapi/linux/io_uring.h\<close>, the table
  \<^verbatim>\<open>io_issue_defs\<close> (its \<^verbatim>\<open>is_128\<close> column) and \<^verbatim>\<open>io_uring_get_opcode\<close> of opdef.c, the
  path printer \<^verbatim>\<open>seq_file_path\<close>, \<^verbatim>\<open>io_sq_cpu_usec\<close> of sqpoll.c, the build option
  \<^verbatim>\<open>CONFIG_NET_RX_BUSY_POLL\<close> with the three NAPI tracking modes, and the pointer
  conversions \<^verbatim>\<open>%p\<close> and \<^verbatim>\<open>%ps\<close> of the kernel log.
\<close>

record env =
  IORING_SETUP_SQPOLL :: u32
  IORING_SETUP_SQE128 :: u32
  IORING_SETUP_CQE32 :: u32
  IORING_SETUP_NO_SQARRAY :: u32
  IORING_SETUP_SQE_MIXED :: u32
  IORING_CQE_F_32 :: u32
  IORING_OP_LAST :: nat
  is_128 :: "u8 \<Rightarrow> bool"
  io_uring_get_opcode :: "u8 \<Rightarrow> string"
  seq_file_path :: "nat \<Rightarrow> string"
  io_sq_cpu_usec :: "task_struct \<Rightarrow> u64"
  CONFIG_NET_RX_BUSY_POLL :: bool
  IO_URING_NAPI_TRACKING_INACTIVE :: u32
  IO_URING_NAPI_TRACKING_DYNAMIC :: u32
  IO_URING_NAPI_TRACKING_STATIC :: u32
  fmt_p :: "nat \<Rightarrow> string"
  fmt_ps :: "nat \<Rightarrow> string"

text \<open>
  Modelled from the spec: \<^verbatim>\<open>array_index_nospec\<close> (linux/nospec.h, not under src/), the
  "bounds-checked, speculation-safe lookup": the index when it is below the size, 0
  otherwise.
\<close>

definition array_index_nospec :: "u8 \<Rightarrow> nat \<Rightarrow> u8" where
  "array_index_nospec index sz = (if unat index < sz then index else 0)"

text \<open>
  Modelled from the spec: \<^verbatim>\<open>io_slot_file\<close> (filetable.h, not under src/), which
  "resolves to the underlying file" of an occupied slot's node, NULL when there is none.
\<close>

definition io_slot_file :: "io_rsrc_node \<Rightarrow> nat option" where
  "io_slot_file node = file_ptr node"

text \<open>\<^verbatim>\<open>task_work_pending\<close>: the task's \<^verbatim>\<open>task_works\<close> chain is not empty.\<close>

definition task_work_pending :: "task_struct \<Rightarrow> bool" where
  "task_work_pending t = (task_works t \<noteq> [])"

definition fmt_bool :: "bool \<Rightarrow> string" where
  "fmt_bool b = fmt_d (if b then 1 else 0)"

datatype fault = NullPointerDeref | LockNotHeld

section \<open>The submission-queue scan of \<^verbatim>\<open>__io_uring_show_fdinfo\<close>\<close>

text \<open>\<^verbatim>\<open>sizeof(struct io_uring_sqe) / sizeof(u64)\<close>: a slot is 64 bytes.\<close>

definition sqe_u64s :: nat where
  "sqe_u64s = 8"

definition sq_shift_of :: "env \<Rightarrow> io_ring_ctx \<Rightarrow> nat" where
  "sq_shift_of e ctx = (if ctx_flags ctx AND IORING_SETUP_SQE128 e \<noteq> 0 then 1 else 0)"

definition sq_idx_of :: "env \<Rightarrow> io_ring_ctx \<Rightarrow> u32 \<Rightarrow> u32" where
  "sq_idx_of e ctx entry =
     (let sq_mask = sq_entries ctx - 1 in
      if ctx_flags ctx AND IORING_SETUP_NO_SQARRAY e \<noteq> 0 then entry AND sq_mask
      else sq_array ctx (unat (entry AND sq_mask)))"

text \<open>The slot \<^verbatim>\<open>&ctx->sq_sqes[sq_idx << sq_shift]\<close>, as its index in \<open>sq_sqes\<close>.\<close>

definition sqe_slot :: "env \<Rightarrow> io_ring_ctx \<Rightarrow> u32 \<Rightarrow> nat" where
  "sqe_slot e ctx sq_idx = unat (push_bit (sq_shift_of e ctx) sq_idx)"

definition invalid_sqe_line :: "u32 \<Rightarrow> string" where
  "invalid_sqe_line sq_idx =
     fmt_5u (unat sq_idx) @ '': invalid sqe, 128B entry on non-mixed sq'' @ [NL]"

definition corrupted_sqe_line :: "u32 \<Rightarrow> string" where
  "corrupted_sqe_line sq_idx =
     fmt_5u (unat sq_idx) @ '': corrupted sqe, wrapping 128B entry'' @ [NL]"

definition sqe_fields :: "env \<Rightarrow> u32 \<Rightarrow> u8 \<Rightarrow> io_uring_sqe \<Rightarrow> string" where
  "sqe_fields e sq_idx opcode sqe =
     fmt_5u (unat sq_idx) @ '': opcode:'' @ io_uring_get_opcode e opcode @
     '', fd:'' @ fmt_d (sint (sqe_fd sqe)) @
     '', flags:'' @ fmt_x (unat (sqe_flags sqe)) @
     '', off:'' @ fmt_u (unat (sqe_off sqe)) @
     '', addr:0x'' @ fmt_x (unat (sqe_addr sqe)) @
     '', rw_flags:0x'' @ fmt_x (unat (sqe_rw_flags sqe)) @
     '', buf_index:'' @ fmt_d (uint (sqe_buf_index sqe)) @
     '' user_data:'' @ fmt_u (unat (sqe_user_data sqe))"

text \<open>The words of the slot after \<open>sqe\<close>, \<^verbatim>\<open>", e%d:0x%llx"\<close> each.\<close>

definition sqe_extra :: "io_uring_sqe \<Rightarrow> string" where
  "sqe_extra nxt =
     concat (map (\<lambda>j. '', e'' @ fmt_d (int j) @ '':0x'' @ fmt_x (unat (sqe_words nxt j)))
       [0..<sqe_u64s])"

definition sqe_line :: "env \<Rightarrow> io_ring_ctx \<Rightarrow> u32 \<Rightarrow> u8 \<Rightarrow> bool \<Rightarrow> string" where
  "sqe_line e ctx sq_idx opcode sqe128 =
     sqe_fields e sq_idx opcode (sq_sqes ctx (sqe_slot e ctx sq_idx)) @
     (if sqe128 then sqe_extra (sq_sqes ctx (sqe_slot e ctx sq_idx + 1)) else []) @
     [NL]"

text \<open>
  One pass through the body of the \<^verbatim>\<open>for\<close> loop, at counter \<open>i\<close> and with the current
  value of the local \<open>sq_head\<close>: the text it writes, and how it leaves: to the next pass
  with the new \<open>sq_head\<close> (at the end of the body or by \<^verbatim>\<open>continue\<close>), or by \<^verbatim>\<open>break\<close>.
\<close>

datatype sq_ctl = SqNext u32 | SqBreak

definition sq_iter :: "env \<Rightarrow> io_ring_ctx \<Rightarrow> u32 \<Rightarrow> u32 \<Rightarrow> string \<times> sq_ctl" where
  "sq_iter e ctx i sq_head =
     (let sq_mask = sq_entries ctx - 1;
          entry = i + sq_head;
          sq_idx = sq_idx_of e ctx entry
      in if sq_idx > sq_mask then ([], SqNext sq_head)
         else
           let sqe = sq_sqes ctx (sqe_slot e ctx sq_idx);
               opcode = sqe_opcode sqe
           in if unat opcode \<ge> IORING_OP_LAST e then ([], SqNext sq_head)
              else
                let opcode = array_index_nospec opcode (IORING_OP_LAST e)
                in if sq_shift_of e ctx \<noteq> 0
                   then (sqe_line e ctx sq_idx opcode True, SqNext sq_head)
                   else if is_128 e opcode then
                     if ctx_flags ctx AND IORING_SETUP_SQE_MIXED e = 0
                     then (invalid_sqe_line sq_idx, SqBreak)
                     else if (sq_head + 1) AND sq_mask = 0
                     then (corrupted_sqe_line sq_idx, SqBreak)
                     else (sqe_line e ctx sq_idx opcode True, SqNext (sq_head + 1))
                   else (sqe_line e ctx sq_idx opcode False, SqNext sq_head))"

text \<open>
  What the pass at counter \<open>i\<close> and local \<open>sq_head\<close> reads: its \<open>sq_idx\<close> and, in the slot
  of that index, the \<open>opcode\<close>.
\<close>

definition sq_pass_idx :: "env \<Rightarrow> io_ring_ctx \<Rightarrow> u32 \<Rightarrow> u32 \<Rightarrow> u32" where
  "sq_pass_idx e ctx i sq_head = sq_idx_of e ctx (i + sq_head)"

definition sq_pass_opcode :: "env \<Rightarrow> io_ring_ctx \<Rightarrow> u32 \<Rightarrow> u32 \<Rightarrow> u8" where
  "sq_pass_opcode e ctx i sq_head =
     sqe_opcode (sq_sqes ctx (sqe_slot e ctx (sq_pass_idx e ctx i sq_head)))"

text \<open>
  The pass gets past both \<^verbatim>\<open>continue\<close> guards: the index is within the mask and the
  opcode below \<^verbatim>\<open>IORING_OP_LAST\<close>.
\<close>

definition sq_pass_valid :: "env \<Rightarrow> io_ring_ctx \<Rightarrow> u32 \<Rightarrow> u32 \<Rightarrow> bool" where
  "sq_pass_valid e ctx i sq_head =
     (sq_pass_idx e ctx i sq_head \<le> sq_entries ctx - 1 \<and>
      unat (sq_pass_opcode e ctx i sq_head) < IORING_OP_LAST e)"


text \<open>
  The pass gets past the guards and meets no such opcode: it writes its entry line and
  leaves \<open>sq_head\<close> as it is.
\<close>

definition sq_pass_plain :: "env \<Rightarrow> io_ring_ctx \<Rightarrow> u32 \<Rightarrow> u32 \<Rightarrow> bool" where
  "sq_pass_plain e ctx i sq_head =
     (sq_pass_valid e ctx i sq_head \<and>
      (sq_shift_of e ctx \<noteq> 0 \<or> \<not> is_128 e (sq_pass_opcode e ctx i sq_head)))"

text \<open>The entry line a pass writes when it reaches the last \<^verbatim>\<open>seq_printf\<close>s of the body.\<close>

definition sq_pass_line :: "env \<Rightarrow> io_ring_ctx \<Rightarrow> u32 \<Rightarrow> u32 \<Rightarrow> bool \<Rightarrow> string" where
  "sq_pass_line e ctx i sq_head sqe128 =
     sqe_line e ctx (sq_pass_idx e ctx i sq_head) (sq_pass_opcode e ctx i sq_head) sqe128"

text \<open>
  The loop \<^verbatim>\<open>for (i = 0; i < sq_entries; i++)\<close> from counter \<open>i\<close> and local \<open>sq_head\<close> on:
  the texts of its passes, in order, one per pass made.
\<close>

function sq_loop :: "env \<Rightarrow> io_ring_ctx \<Rightarrow> u32 \<Rightarrow> u32 \<Rightarrow> u32 \<Rightarrow> string list" where
  "sq_loop e ctx n i sq_head =
     (if i < n then
        (case sq_iter e ctx i sq_head of
           (s, SqBreak) \<Rightarrow> [s]
         | (s, SqNext sq_head') \<Rightarrow> s # sq_loop e ctx n (i + 1) sq_head')
      else [])"
  by pat_completeness auto
termination
proof (relation "measure (\<lambda>(e, ctx, n, i, sq_head). unat n - unat i)", goal_cases)
  case 1
  show ?case by simp
next
  case prems: (2 e ctx n i sq_head)
  from prems(1) have lt: "unat i < unat n"
    by (simp add: word_less_nat_alt)
  moreover have "unat n < 2 ^ 32"
    using unsigned_less [of n] by simp
  ultimately have "unat i + 1 < 2 ^ 32"
    by simp
  then have "unat (i + 1) = Suc (unat i)"
    by (simp add: unat_word_ariths)
  with lt show ?case
    by simp
qed

declare sq_loop.simps [simp del]

text \<open>
  The count line and the scan: \<^verbatim>\<open>sq_entries = min(sq_tail - sq_head, ctx->sq_entries)\<close>.
\<close>

definition sq_scan :: "env \<Rightarrow> io_ring_ctx \<Rightarrow> io_rings \<Rightarrow> string list" where
  "sq_scan e ctx r =
     sq_loop e ctx (min (r_sq_tail r - r_sq_head r) (sq_entries ctx)) 0 (r_sq_head r)"

definition sq_section :: "env \<Rightarrow> io_ring_ctx \<Rightarrow> io_rings \<Rightarrow> string" where
  "sq_section e ctx r =
     ''SQEs:'' @ [TAB] @ fmt_u (unat (r_sq_tail r - r_sq_head r)) @ [NL] @
     concat (sq_scan e ctx r)"

section \<open>The completion-queue scan\<close>

definition cqe32_of :: "env \<Rightarrow> io_ring_ctx \<Rightarrow> io_uring_cqe \<Rightarrow> bool" where
  "cqe32_of e ctx cqe =
     (cqe_flags cqe AND IORING_CQE_F_32 e \<noteq> 0 \<or> ctx_flags ctx AND IORING_SETUP_CQE32 e \<noteq> 0)"

text \<open>The entry \<^verbatim>\<open>&r->cqes[(cq_head & cq_mask)]\<close> of a pass at \<open>cq_head\<close>.\<close>

definition cqe_at :: "io_ring_ctx \<Rightarrow> io_rings \<Rightarrow> u32 \<Rightarrow> io_uring_cqe" where
  "cqe_at ctx r cq_head = cqes r (unat (cq_head AND (cq_entries ctx - 1)))"

definition cqe_fields :: "io_ring_ctx \<Rightarrow> io_rings \<Rightarrow> u32 \<Rightarrow> string" where
  "cqe_fields ctx r cq_head =
     (let cqe = cqe_at ctx r cq_head in
      fmt_5u (unat (cq_head AND (cq_entries ctx - 1))) @
      '': user_data:'' @ fmt_u (unat (cqe_user_data cqe)) @
      '', res:'' @ fmt_d (sint (cqe_res cqe)) @
      '', flags:'' @ fmt_x (unat (cqe_flags cqe)))"

definition cqe_extra :: "io_uring_cqe \<Rightarrow> string" where
  "cqe_extra cqe =
     '', extra1:'' @ fmt_u (unat (big_cqe cqe 0)) @
     '', extra2:'' @ fmt_u (unat (big_cqe cqe 1)) @ [NL]"

text \<open>What one pass of the \<^verbatim>\<open>while\<close> loop writes, and the \<open>cq_head\<close> it leaves.\<close>

definition cq_iter_text :: "env \<Rightarrow> io_ring_ctx \<Rightarrow> io_rings \<Rightarrow> u32 \<Rightarrow> string" where
  "cq_iter_text e ctx r cq_head =
     cqe_fields ctx r cq_head @
     (if cqe32_of e ctx (cqe_at ctx r cq_head) then cqe_extra (cqe_at ctx r cq_head) else []) @
     [NL]"

definition cq_iter_head :: "env \<Rightarrow> io_ring_ctx \<Rightarrow> io_rings \<Rightarrow> u32 \<Rightarrow> u32" where
  "cq_iter_head e ctx r cq_head =
     (if cqe32_of e ctx (cqe_at ctx r cq_head) then cq_head + 1 + 1 else cq_head + 1)"

text \<open>
  The loop \<^verbatim>\<open>while (cq_head < cq_tail)\<close>: the texts of its passes and the final
  \<open>cq_head\<close>. The counter can wrap past \<open>cq_tail\<close>, so the loop need not end: \<open>None\<close> is
  the scan that does not return.
\<close>

partial_function (option) cq_loop ::
  "env \<Rightarrow> io_ring_ctx \<Rightarrow> io_rings \<Rightarrow> u32 \<Rightarrow> u32 \<Rightarrow> (string list \<times> u32) option" where
  "cq_loop e ctx r cq_tail cq_head =
     (if cq_head < cq_tail then
        Option.bind (cq_loop e ctx r cq_tail (cq_iter_head e ctx r cq_head))
          (\<lambda>(ss, h). Some (cq_iter_text e ctx r cq_head # ss, h))
      else Some ([], cq_head))"

declare cq_loop.simps [code]

definition cq_scan :: "env \<Rightarrow> io_ring_ctx \<Rightarrow> io_rings \<Rightarrow> (string list \<times> u32) option" where
  "cq_scan e ctx r = cq_loop e ctx r (r_cq_tail r) (r_cq_head r)"

definition cq_count_line :: "io_rings \<Rightarrow> string" where
  "cq_count_line r = ''CQEs:'' @ [TAB] @ fmt_u (unat (r_cq_tail r - r_cq_head r)) @ [NL]"

section \<open>The other sections of the report\<close>

definition cursors_text :: "io_ring_ctx \<Rightarrow> io_rings \<Rightarrow> string" where
  "cursors_text ctx r =
     ''SqMask:'' @ [TAB] @ ''0x'' @ fmt_x (unat (sq_entries ctx - 1)) @ [NL] @
     ''SqHead:'' @ [TAB] @ fmt_u (unat (r_sq_head r)) @ [NL] @
     ''SqTail:'' @ [TAB] @ fmt_u (unat (r_sq_tail r)) @ [NL] @
     ''CachedSqHead:'' @ [TAB] @ fmt_u (unat (cached_sq_head ctx)) @ [NL] @
     ''CqMask:'' @ [TAB] @ ''0x'' @ fmt_x (unat (cq_entries ctx - 1)) @ [NL] @
     ''CqHead:'' @ [TAB] @ fmt_u (unat (r_cq_head r)) @ [NL] @
     ''CqTail:'' @ [TAB] @ fmt_u (unat (r_cq_tail r)) @ [NL] @
     ''CachedCqTail:'' @ [TAB] @ fmt_u (unat (cached_cq_tail ctx)) @ [NL]"

text \<open>
  The SQ-poll thread: the locals \<open>(sq_pid, sq_cpu, sq_total_time, sq_work_time)\<close>, which stay at
  \<open>(-1, -1, 0, 0)\<close> without \<^verbatim>\<open>IORING_SETUP_SQPOLL\<close> or when the thread is gone.
\<close>

definition sqpoll_values :: "env \<Rightarrow> io_ring_ctx \<Rightarrow> s32 \<times> s32 \<times> u64 \<times> u64" where
  "sqpoll_values e ctx =
     (if ctx_flags ctx AND IORING_SETUP_SQPOLL e \<noteq> 0 then
        (let sq = sq_data ctx in
         case thread sq of
           Some tsk \<Rightarrow> (task_pid sq, sq_cpu sq, io_sq_cpu_usec e tsk, work_time sq)
         | None \<Rightarrow> (- 1, - 1, 0, 0))
      else (- 1, - 1, 0, 0))"

definition sqpoll_text :: "env \<Rightarrow> io_ring_ctx \<Rightarrow> string" where
  "sqpoll_text e ctx =
     (case sqpoll_values e ctx of (sq_pid, sq_cpu_id, sq_total_time, sq_work_time) \<Rightarrow>
        ''SqThread:'' @ [TAB] @ fmt_d (sint sq_pid) @ [NL] @
        ''SqThreadCpu:'' @ [TAB] @ fmt_d (sint sq_cpu_id) @ [NL] @
        ''SqTotalTime:'' @ [TAB] @ fmt_u (unat sq_total_time) @ [NL] @
        ''SqWorkTime:'' @ [TAB] @ fmt_u (unat sq_work_time) @ [NL])"

text \<open>
  The registered-file table: the file of slot \<open>i\<close> (\<open>f\<close> of the loop body), and what the
  pass for slot \<open>i\<close> writes.
\<close>

definition file_of_slot :: "io_ring_ctx \<Rightarrow> nat \<Rightarrow> nat option" where
  "file_of_slot ctx i =
     (case nodes (file_table ctx) i of None \<Rightarrow> None | Some node \<Rightarrow> io_slot_file node)"

definition file_slot_text :: "env \<Rightarrow> io_ring_ctx \<Rightarrow> nat \<Rightarrow> string" where
  "file_slot_text e ctx i =
     (case file_of_slot ctx i of
        Some f \<Rightarrow> fmt_5u i @ '': '' @ seq_file_path e f @ [NL]
      | None \<Rightarrow> [])"

definition files_scan :: "env \<Rightarrow> io_ring_ctx \<Rightarrow> string list" where
  "files_scan e ctx = map (file_slot_text e ctx) [0..<unat (nr (file_table ctx))]"

definition files_section :: "env \<Rightarrow> io_ring_ctx \<Rightarrow> string" where
  "files_section e ctx =
     ''UserFiles:'' @ [TAB] @ fmt_u (unat (nr (file_table ctx))) @ [NL] @
     concat (files_scan e ctx)"

text \<open>The registered-buffer table, in the same way.\<close>

definition buf_of_slot :: "io_ring_ctx \<Rightarrow> nat \<Rightarrow> io_mapped_ubuf option" where
  "buf_of_slot ctx i =
     (case nodes (buf_table ctx) i of None \<Rightarrow> None | Some node \<Rightarrow> buf node)"

definition buf_line :: "nat \<Rightarrow> io_mapped_ubuf \<Rightarrow> string" where
  "buf_line i b =
     fmt_5u i @ '': 0x'' @ fmt_x (unat (ubuf b)) @ ''/'' @ fmt_u (unat (len b)) @ [NL]"

definition none_line :: "nat \<Rightarrow> string" where
  "none_line i = fmt_5u i @ '': <none>'' @ [NL]"

definition buf_slot_text :: "io_ring_ctx \<Rightarrow> nat \<Rightarrow> string" where
  "buf_slot_text ctx i =
     (case buf_of_slot ctx i of Some b \<Rightarrow> buf_line i b | None \<Rightarrow> none_line i)"

definition bufs_scan :: "io_ring_ctx \<Rightarrow> string list" where
  "bufs_scan ctx = map (buf_slot_text ctx) [0..<unat (nr (buf_table ctx))]"

definition bufs_section :: "io_ring_ctx \<Rightarrow> string" where
  "bufs_section ctx =
     ''UserBufs:'' @ [TAB] @ fmt_u (unat (nr (buf_table ctx))) @ [NL] @
     concat (bufs_scan ctx)"



text \<open>
  The poll list. The reporter reads \<^verbatim>\<open>req->tctx->task\<close> with no test of \<^verbatim>\<open>req->tctx\<close>:
  a request without a task context is a NULL dereference.
\<close>

fun poll_chain :: "io_kiocb list \<Rightarrow> fault + string" where
  "poll_chain [] = Inr []"
| "poll_chain (req # reqs) =
     (case tctx req of
        None \<Rightarrow> Inl NullPointerDeref
      | Some t \<Rightarrow>
          (case poll_chain reqs of
             Inl f \<Rightarrow> Inl f
           | Inr s \<Rightarrow>
               Inr (''  op='' @ fmt_d (uint (req_opcode req)) @
                    '', task_works='' @ fmt_bool (task_work_pending (task t)) @ [NL] @ s)))"

text \<open>The buckets \<^verbatim>\<open>i < (1U << ctx->cancel_table.hash_bits)\<close>, in order.\<close>

definition poll_requests :: "io_ring_ctx \<Rightarrow> io_kiocb list" where
  "poll_requests ctx =
     concat (map (hbs (cancel_table ctx))
       [0..<unat (push_bit (unat (hash_bits (cancel_table ctx))) (1 :: u32))])"

definition poll_section :: "io_ring_ctx \<Rightarrow> fault + string" where
  "poll_section ctx =
     (case poll_chain (poll_requests ctx) of
        Inl f \<Rightarrow> Inl f
      | Inr s \<Rightarrow> Inr (''PollList:'' @ [NL] @ s))"

definition overflow_line :: "io_uring_cqe \<Rightarrow> string" where
  "overflow_line cqe =
     ''  user_data='' @ fmt_u (unat (cqe_user_data cqe)) @
     '', res='' @ fmt_d (sint (cqe_res cqe)) @
     '', flags='' @ fmt_x (unat (cqe_flags cqe)) @ [NL]"

definition overflow_section :: "io_ring_ctx \<Rightarrow> string" where
  "overflow_section ctx =
     ''CqOverflowList:'' @ [NL] @ concat (map overflow_line (cq_overflow_list ctx))"

definition common_tracking_show_fdinfo :: "io_ring_ctx \<Rightarrow> string \<Rightarrow> string" where
  "common_tracking_show_fdinfo ctx tracking_strategy =
     ''NAPI:'' @ [TAB] @ ''enabled'' @ [NL] @
     ''napi tracking:'' @ [TAB] @ tracking_strategy @ [NL] @
     ''napi_busy_poll_dt:'' @ [TAB] @ fmt_u (unat (napi_busy_poll_dt ctx)) @ [NL] @
     (if napi_prefer_busy_poll ctx
      then ''napi_prefer_busy_poll:'' @ [TAB] @ ''true'' @ [NL]
      else ''napi_prefer_busy_poll:'' @ [TAB] @ ''false'' @ [NL])"

definition napi_show_fdinfo :: "env \<Rightarrow> io_ring_ctx \<Rightarrow> string" where
  "napi_show_fdinfo e ctx =
     (if CONFIG_NET_RX_BUSY_POLL e then
        (let mode = napi_track_mode ctx in
         if mode = IO_URING_NAPI_TRACKING_INACTIVE e then ''NAPI:'' @ [TAB] @ ''disabled'' @ [NL]
         else if mode = IO_URING_NAPI_TRACKING_DYNAMIC e
         then common_tracking_show_fdinfo ctx ''dynamic''
         else if mode = IO_URING_NAPI_TRACKING_STATIC e
         then common_tracking_show_fdinfo ctx ''static''
         else ''NAPI:'' @ [TAB] @ ''unknown mode ('' @ fmt_u (unat mode) @ '')'' @ [NL])
      else [])"

section \<open>The reporter\<close>

text \<open>
  \<^verbatim>\<open>__io_uring_show_fdinfo\<close> (an Isabelle name starts with a letter): the text it appends
  to the sink. \<open>None\<close>: the completion scan does not end; \<open>Inl\<close>: a NULL dereference
  (\<^verbatim>\<open>ctx->rings\<close> is read with no test, as \<^verbatim>\<open>req->tctx\<close> is). The spinlock
  \<^verbatim>\<open>completion_lock\<close> around the overflow list is taken and released inside the overflow
  section and is not part of the state.
\<close>

definition do_io_uring_show_fdinfo :: "env \<Rightarrow> io_ring_ctx \<Rightarrow> (fault + string) option" where
  "do_io_uring_show_fdinfo e ctx =
     (case rings ctx of
        None \<Rightarrow> Some (Inl NullPointerDeref)
      | Some r \<Rightarrow>
          (case cq_scan e ctx r of
             None \<Rightarrow> None
           | Some (cq_texts, cq_head) \<Rightarrow>
               (case poll_section ctx of
                  Inl f \<Rightarrow> Some (Inl f)
                | Inr poll_text \<Rightarrow>
                    Some (Inr (cursors_text ctx r @ sq_section e ctx r @
                      cq_count_line r @ concat cq_texts @
                      sqpoll_text e ctx @ files_section e ctx @ bufs_section ctx @
                      poll_text @ overflow_section ctx @ napi_show_fdinfo e ctx)))))"

text \<open>
  Modelled from the spec: the "non-blocking acquisition" of the main coordination lock and
  its release (\<^verbatim>\<open>mutex_trylock\<close>, \<^verbatim>\<open>mutex_unlock\<close>; kernel/locking, not under src/). The
  lock is free (\<open>None\<close>) or held by a task; \<^verbatim>\<open>mutex_trylock\<close> by task \<open>cur\<close> takes a free
  lock and fails on a held one without waiting.
\<close>

definition mutex_trylock :: "nat \<Rightarrow> nat option \<Rightarrow> bool \<times> nat option" where
  "mutex_trylock cur lk = (case lk of None \<Rightarrow> (True, Some cur) | Some holder \<Rightarrow> (False, lk))"

definition mutex_unlock :: "nat option \<Rightarrow> nat option" where
  "mutex_unlock lk = None"

text \<open>The operations a call makes on \<^verbatim>\<open>uring_lock\<close>, in order.\<close>

datatype mutex_op = Trylock bool | Unlock

record show_result =
  res_ctx :: io_ring_ctx
  res_lock_ops :: "mutex_op list"
  res_sink :: seq_file

text \<open>
  \<^verbatim>\<open>io_uring_show_fdinfo\<close>, called by task \<open>cur\<close> on the ring \<open>ctx\<close> (the file's
  \<^verbatim>\<open>private_data\<close>) and the sink \<open>m\<close>.
\<close>

definition io_uring_show_fdinfo ::
  "env \<Rightarrow> nat \<Rightarrow> seq_file \<Rightarrow> io_ring_ctx \<Rightarrow> (fault + show_result) option" where
  "io_uring_show_fdinfo e cur m ctx =
     (case mutex_trylock cur (uring_lock ctx) of
        (True, lk) \<Rightarrow>
          (case do_io_uring_show_fdinfo e (ctx\<lparr>uring_lock := lk\<rparr>) of
             None \<Rightarrow> None
           | Some (Inl f) \<Rightarrow> Some (Inl f)
           | Some (Inr text) \<Rightarrow>
               Some (Inr \<lparr>res_ctx = ctx\<lparr>uring_lock := mutex_unlock lk\<rparr>,
                          res_lock_ops = [Trylock True, Unlock],
                          res_sink = m @ text\<rparr>))
      | (False, lk) \<Rightarrow>
          Some (Inr \<lparr>res_ctx = ctx, res_lock_ops = [Trylock False], res_sink = m\<rparr>))"

section \<open>The stall dumper\<close>

text \<open>The kernel log: the texts of the \<^verbatim>\<open>pr_warn\<close> calls, in order.\<close>

definition io_uring_dump_req :: "env \<Rightarrow> string \<Rightarrow> io_kiocb \<Rightarrow> string" where
  "io_uring_dump_req e prefix req =
     prefix @ '': op='' @ io_uring_get_opcode e (req_opcode req) @
     '', flags=0x'' @ fmt_x (unat (req_flags req)) @
     '', user_data='' @ fmt_u (unat (req_user_data req)) @
     '', refs='' @ fmt_d (sint (refs req)) @
     '', poll_refs='' @ fmt_d (sint (poll_refs req)) @
     '', task='' @ fmt_d (case tctx req of Some t \<Rightarrow> sint (pid (task t)) | None \<Rightarrow> - 1) @
     '', cancel_seq='' @ fmt_d (sint (work_cancel_seq req)) @
     ''/'' @ fmt_bool (cancel_seq_set req) @
     '', tw='' @ fmt_ps e (io_task_work_func req) @ [NL]"

definition io_uring_dump_llist :: "env \<Rightarrow> string \<Rightarrow> io_kiocb list \<Rightarrow> string list" where
  "io_uring_dump_llist e name reqs =
     (if reqs = [] then []
      else (''  '' @ name @ '':'' @ [NL]) # map (io_uring_dump_req e ''    req'') reqs)"

definition io_uring_dump_task_works :: "env \<Rightarrow> task_struct \<Rightarrow> string list" where
  "io_uring_dump_task_works e t =
     map (\<lambda>func. ''      task_work: '' @ fmt_ps e func @ [NL]) (task_works t)"

text \<open>
  Modelled from the spec: \<^verbatim>\<open>lockdep_assert_held\<close> (linux/lockdep.h, not under src/): "the
  routine asserts this rather than acquiring it", and a call without the lock is a "fatal
  assertion". The assertion holds when the calling task holds the lock.
\<close>

definition lockdep_assert_held :: "nat \<Rightarrow> nat option \<Rightarrow> bool" where
  "lockdep_assert_held cur lk = (lk = Some cur)"

definition dump_rings :: "io_ring_ctx \<Rightarrow> string list" where
  "dump_rings ctx =
     (case rings ctx of
        None \<Rightarrow> []
      | Some r \<Rightarrow>
          [''  SQ: head='' @ fmt_u (unat (r_sq_head r)) @ '', tail='' @ fmt_u (unat (r_sq_tail r)) @
             '' (cached_head='' @ fmt_u (unat (cached_sq_head ctx)) @ '')'' @ [NL],
           ''  CQ: head='' @ fmt_u (unat (r_cq_head r)) @ '', tail='' @ fmt_u (unat (r_cq_tail r)) @
             '' (cached_tail='' @ fmt_u (unat (cached_cq_tail ctx)) @ '')'' @ [NL]])"

definition dump_poll_req :: "env \<Rightarrow> io_kiocb \<Rightarrow> string list" where
  "dump_poll_req e req =
     io_uring_dump_req e ''    poll'' req #
     (case tctx req of
        None \<Rightarrow> []
      | Some t \<Rightarrow> if task_work_pending (task t) then io_uring_dump_task_works e (task t) else [])"

definition dump_overflow :: "io_ring_ctx \<Rightarrow> string list" where
  "dump_overflow ctx =
     (let count = (of_nat (length (cq_overflow_list ctx)) :: u32) in
      if count \<noteq> 0 then [''  cq_overflow_list: '' @ fmt_u (unat count) @ '' CQEs'' @ [NL]]
      else [])"

record dump_result =
  dump_lock_ops :: "mutex_op list"
  dump_lock :: "nat option"
  dump_log :: "string list"

text \<open>
  \<^verbatim>\<open>io_uring_dump_reqs\<close>, called by task \<open>cur\<close> with the address \<open>ctxp\<close> of the ring \<open>ctx\<close>.
\<close>

definition io_uring_dump_reqs ::
  "env \<Rightarrow> nat \<Rightarrow> nat \<Rightarrow> io_ring_ctx \<Rightarrow> string \<Rightarrow> fault + dump_result" where
  "io_uring_dump_reqs e cur ctxp ctx prefix =
     (if \<not> lockdep_assert_held cur (uring_lock ctx) then Inl LockNotHeld
      else Inr \<lparr>dump_lock_ops = [],
                dump_lock = uring_lock ctx,
                dump_log =
                  [prefix @ '': ring '' @ fmt_p e ctxp @
                     '', flags=0x'' @ fmt_x (unat (ctx_flags ctx)) @ [NL]] @
                  dump_rings ctx @
                  [''  nr_req_allocated: '' @ fmt_u (unat (nr_req_allocated ctx)) @ [NL],
                   ''  cancel_seq: '' @ fmt_d (sint (cancel_seq ctx)) @ [NL],
                   ''  PollList:'' @ [NL]] @
                  concat (map (dump_poll_req e) (poll_requests ctx)) @
                  io_uring_dump_llist e ''work_llist'' (work_llist ctx) @
                  io_uring_dump_llist e ''retry_llist'' (retry_llist ctx) @
                  io_uring_dump_llist e ''fallback_llist'' (fallback_llist ctx) @
                  (if defer_list ctx \<noteq> []
                   then (''  defer_list:'' @ [NL]) #
                        map (io_uring_dump_req e ''    req'') (defer_list ctx)
                   else []) @
                  dump_overflow ctx\<rparr>)"

section \<open>Example rings\<close>

text \<open>
  An environment with the flag values of the uapi header, 65 opcodes of which opcode 63 is
  a 128-byte one, and rings of four submission and eight completion slots; the theorems
  below are applied to them.
\<close>

definition env0 :: env where
  "env0 = \<lparr>IORING_SETUP_SQPOLL = 0x2, IORING_SETUP_SQE128 = 0x400, IORING_SETUP_CQE32 = 0x800,
     IORING_SETUP_NO_SQARRAY = 0x10000, IORING_SETUP_SQE_MIXED = 0x80000,
     IORING_CQE_F_32 = 0x8000, IORING_OP_LAST = 65,
     is_128 = (\<lambda>opcode. opcode = 63),
     io_uring_get_opcode =
       (\<lambda>opcode. if opcode = 0 then ''NOP'' else if opcode = 63 then ''NOP128'' else ''OP''),
     seq_file_path = (\<lambda>f. ''/dev/null''),
     io_sq_cpu_usec = (\<lambda>t. 0),
     CONFIG_NET_RX_BUSY_POLL = False,
     IO_URING_NAPI_TRACKING_INACTIVE = 0, IO_URING_NAPI_TRACKING_DYNAMIC = 1,
     IO_URING_NAPI_TRACKING_STATIC = 2,
     fmt_p = fmt_x, fmt_ps = fmt_x\<rparr>"

definition sqe0 :: "u8 \<Rightarrow> io_uring_sqe" where
  "sqe0 opcode = \<lparr>sqe_opcode = opcode, sqe_flags = 0, sqe_fd = 3, sqe_off = 0, sqe_addr = 0,
     sqe_rw_flags = 0, sqe_buf_index = 0, sqe_user_data = 7, sqe_words = (\<lambda>j. 0)\<rparr>"

definition cqe0 :: "u32 \<Rightarrow> io_uring_cqe" where
  "cqe0 fl = \<lparr>cqe_user_data = 7, cqe_res = 0, cqe_flags = fl, big_cqe = (\<lambda>j. 0)\<rparr>"

definition rings0 :: io_rings where
  "rings0 = \<lparr>r_sq_head = 0, r_sq_tail = 2, r_cq_head = 0, r_cq_tail = 3,
     cqes = (\<lambda>k. if k = 1 then cqe0 0x8000 else cqe0 0)\<rparr>"

definition ctx0 :: io_ring_ctx where
  "ctx0 = \<lparr>ctx_flags = 0, sq_entries = 4, cq_entries = 8, rings = Some rings0,
     sq_array = (\<lambda>k. of_nat k), sq_sqes = (\<lambda>k. sqe0 0),
     cached_sq_head = 0, cached_cq_tail = 3,
     sq_data = \<lparr>thread = None, task_pid = 0, sq_cpu = 0, work_time = 0\<rparr>,
     file_table = \<lparr>nr = 2, nodes =
       (\<lambda>k. if k = 1 then Some \<lparr>file_ptr = Some 100, buf = None\<rparr> else None)\<rparr>,
     buf_table = \<lparr>nr = 2, nodes =
       (\<lambda>k. if k = 0 then Some \<lparr>file_ptr = None, buf = Some \<lparr>ubuf = 4096, len = 512\<rparr>\<rparr>
            else None)\<rparr>,
     cancel_table = \<lparr>hash_bits = 1, hbs = (\<lambda>k. [])\<rparr>,
     cq_overflow_list = [], work_llist = [], retry_llist = [], fallback_llist = [],
     defer_list = [], nr_req_allocated = 0, cancel_seq = 0,
     napi_track_mode = 0, napi_busy_poll_dt = 0, napi_prefer_busy_poll = False,
     uring_lock = None\<rparr>"

text \<open>
  Completion cursors across the wrap of the 32-bit counters: two entries are enqueued, at
  \<open>0xFFFFFFFF\<close> and at \<open>0\<close>.
\<close>

definition rings_wrapped :: io_rings where
  "rings_wrapped = rings0\<lparr>r_cq_head := 0xFFFFFFFF, r_cq_tail := 1\<rparr>"

text \<open>
  The ring \<open>ctx0\<close> with \<^verbatim>\<open>IORING_SETUP_CQE32\<close> and one completion enqueued at the last
  values of the cursors before they wrap: the head at \<open>0xFFFFFFFE\<close>, the tail at
  \<open>0xFFFFFFFF\<close>.
\<close>

definition ctx_cqe32_last :: io_ring_ctx where
  "ctx_cqe32_last =
     ctx0\<lparr>ctx_flags := 0x800,
          rings := Some (rings0\<lparr>r_cq_head := 0xFFFFFFFE, r_cq_tail := 0xFFFFFFFF\<rparr>)\<rparr>"

text \<open>The ring \<open>ctx0\<close> with the opcode \<open>opcode\<close> in slot \<open>k\<close> of the submission entries.\<close>

definition ctx_with_opcode :: "nat \<Rightarrow> u8 \<Rightarrow> io_ring_ctx" where
  "ctx_with_opcode k opcode = ctx0\<lparr>sq_sqes := (\<lambda>j. if j = k then sqe0 opcode else sqe0 0)\<rparr>"


section \<open>Texts and their lines\<close>

lemma digit_char_in: "d < 16 \<Longrightarrow> digit_char d \<in> set ''0123456789abcdef''"
  unfolding digit_char_def by (rule nth_mem) simp

lemma digit_char_not_NL: "d < 16 \<Longrightarrow> digit_char d \<noteq> NL"
  using digit_char_in [of d] by (auto simp: NL_def)

lemma fmt_u_no_NL: "NL \<notin> set (fmt_u n)"
proof (induction n rule: fmt_u.induct)
  case (1 n)
  show ?case
  proof (cases "n < 10")
    case True
    then show ?thesis using digit_char_not_NL [of n] by (subst fmt_u.simps) simp
  next
    case False
    moreover have "digit_char (n mod 10) \<noteq> NL"
      by (rule digit_char_not_NL) simp
    ultimately show ?thesis using 1 by (subst fmt_u.simps) simp
  qed
qed

lemma fmt_x_no_NL: "NL \<notin> set (fmt_x n)"
proof (induction n rule: fmt_x.induct)
  case (1 n)
  show ?case
  proof (cases "n < 16")
    case True
    then show ?thesis using digit_char_not_NL [of n] by (subst fmt_x.simps) simp
  next
    case False
    moreover have "digit_char (n mod 16) \<noteq> NL"
      by (rule digit_char_not_NL) simp
    ultimately show ?thesis using 1 by (subst fmt_x.simps) simp
  qed
qed

lemma nlines_Nil: "nlines [] = 0"
  by (simp add: nlines_def)

lemma nlines_append: "nlines (s @ t) = nlines s + nlines t"
  by (simp add: nlines_def)

lemma nlines_Cons: "nlines (c # s) = (if c = NL then Suc (nlines s) else nlines s)"
  by (simp add: nlines_def)

lemma nlines_none: "NL \<notin> set s \<Longrightarrow> nlines s = 0"
  by (simp add: nlines_def)

lemma nlines_fmt_u: "nlines (fmt_u n) = 0"
  by (simp add: nlines_none fmt_u_no_NL)

lemma nlines_fmt_x: "nlines (fmt_x n) = 0"
  by (simp add: nlines_none fmt_x_no_NL)

lemma nlines_fmt_d: "nlines (fmt_d z) = 0"
  by (simp add: fmt_d_def nlines_Cons nlines_fmt_u NL_def)

lemma nlines_replicate_blank: "nlines (replicate k CHR '' '') = 0"
  by (induction k) (simp_all add: nlines_Nil nlines_Cons NL_def)

lemma nlines_fmt_5u: "nlines (fmt_5u n) = 0"
  by (simp add: fmt_5u_def nlines_append nlines_replicate_blank nlines_fmt_u)

lemma nlines_fmt_bool: "nlines (fmt_bool b) = 0"
  by (simp add: fmt_bool_def nlines_fmt_d)

lemmas nlines_text = nlines_Nil nlines_append nlines_Cons NL_def TAB_def
  nlines_fmt_u nlines_fmt_x nlines_fmt_d nlines_fmt_5u nlines_fmt_bool

lemma nlines_invalid_sqe_line: "nlines (invalid_sqe_line k) = 1"
  by (simp add: invalid_sqe_line_def nlines_text)

lemma nlines_corrupted_sqe_line: "nlines (corrupted_sqe_line k) = 1"
  by (simp add: corrupted_sqe_line_def nlines_text)

lemma nlines_sqe_fields:
  "nlines (io_uring_get_opcode e opcode) = 0 \<Longrightarrow> nlines (sqe_fields e k opcode sqe) = 0"
  by (simp add: sqe_fields_def nlines_text)

lemma nlines_concat_none: "(\<And>s. s \<in> set ss \<Longrightarrow> nlines s = 0) \<Longrightarrow> nlines (concat ss) = 0"
  by (induction ss) (simp_all add: nlines_Nil nlines_append)

lemma nlines_sqe_extra: "nlines (sqe_extra nxt) = 0"
  unfolding sqe_extra_def
  by (rule nlines_concat_none) (auto simp: nlines_text)

lemma nlines_sqe_line:
  "nlines (io_uring_get_opcode e opcode) = 0 \<Longrightarrow> nlines (sqe_line e ctx k opcode w) = 1"
  by (simp add: sqe_line_def nlines_sqe_fields nlines_sqe_extra nlines_append nlines_Cons nlines_Nil)


section \<open>Passes of the submission scan\<close>

lemma sq_iter_skip_idx:
  "sq_entries ctx - 1 < sq_pass_idx e ctx i h \<Longrightarrow> sq_iter e ctx i h = ([], SqNext h)"
  by (simp add: sq_iter_def sq_pass_idx_def Let_def)

lemma sq_iter_skip_opcode:
  "IORING_OP_LAST e \<le> unat (sq_pass_opcode e ctx i h) \<Longrightarrow> sq_iter e ctx i h = ([], SqNext h)"
  by (simp add: sq_iter_def sq_pass_idx_def sq_pass_opcode_def Let_def)

lemma sq_iter_valid:
  assumes "sq_pass_valid e ctx i h"
  shows "sq_iter e ctx i h =
     (if sq_shift_of e ctx \<noteq> 0 then (sq_pass_line e ctx i h True, SqNext h)
      else if is_128 e (sq_pass_opcode e ctx i h) then
        if ctx_flags ctx AND IORING_SETUP_SQE_MIXED e = 0
        then (invalid_sqe_line (sq_pass_idx e ctx i h), SqBreak)
        else if (h + 1) AND (sq_entries ctx - 1) = 0
        then (corrupted_sqe_line (sq_pass_idx e ctx i h), SqBreak)
        else (sq_pass_line e ctx i h True, SqNext (h + 1))
      else (sq_pass_line e ctx i h False, SqNext h))"
proof -
  from assms have a: "\<not> sq_entries ctx - 1 < sq_idx_of e ctx (i + h)"
    by (simp add: sq_pass_valid_def sq_pass_idx_def not_less)
  from assms have b: "\<not> IORING_OP_LAST e \<le>
      unat (sqe_opcode (sq_sqes ctx (sqe_slot e ctx (sq_idx_of e ctx (i + h)))))"
    by (simp add: sq_pass_valid_def sq_pass_idx_def sq_pass_opcode_def not_le)
  from b have c: "unat (sqe_opcode (sq_sqes ctx (sqe_slot e ctx (sq_idx_of e ctx (i + h)))))
      < IORING_OP_LAST e"
    by simp
  show ?thesis
    by (simp add: sq_iter_def sq_pass_idx_def sq_pass_opcode_def sq_pass_line_def Let_def
        array_index_nospec_def a b c)
qed

lemma sq_loop_done: "\<not> i < n \<Longrightarrow> sq_loop e ctx n i h = []"
  by (subst sq_loop.simps) simp

lemma sq_loop_next:
  "i < n \<Longrightarrow> sq_iter e ctx i h = (s, SqNext h') \<Longrightarrow>
   sq_loop e ctx n i h = s # sq_loop e ctx n (i + 1) h'"
  by (subst sq_loop.simps) simp

lemma sq_loop_break:
  "i < n \<Longrightarrow> sq_iter e ctx i h = (s, SqBreak) \<Longrightarrow> sq_loop e ctx n i h = [s]"
  by (subst sq_loop.simps) simp


lemma unat_inc_lt: "(i::u32) < n \<Longrightarrow> unat (i + 1) = Suc (unat i)"
proof -
  assume "i < n"
  then have "unat i < unat n" by (simp add: word_less_nat_alt)
  moreover have "unat n < 2 ^ 32" using unsigned_less [of n] by simp
  ultimately have "unat i + 1 < 2 ^ 32" by simp
  then show ?thesis by (simp add: unat_word_ariths)
qed



lemma sq_loop_length: "length (sq_loop e ctx n i h) \<le> unat n - unat i"
proof (induction "unat n - unat i" arbitrary: i h)
  case 0
  then have "\<not> i < n"
    by (simp add: word_less_nat_alt)
  then show ?case
    by (simp add: sq_loop_done)
next
  case (Suc d)
  then have lt: "i < n"
    by (simp add: word_less_nat_alt)
  have d: "d = unat n - unat (i + 1)"
    using Suc.hyps(2) unat_inc_lt [OF lt] by simp
  obtain s c where it: "sq_iter e ctx i h = (s, c)"
    by (cases "sq_iter e ctx i h")
  show ?case
  proof (cases c)
    case (SqNext h')
    with it lt Suc.hyps(1) [OF d, of h'] Suc.hyps(2) unat_inc_lt [OF lt] show ?thesis
      by (simp add: sq_loop_next)
  next
    case SqBreak
    with it lt Suc.hyps(2) show ?thesis
      by (simp add: sq_loop_break)
  qed
qed

lemma sq_iter_nlines:
  assumes "\<forall>opcode. nlines (io_uring_get_opcode e opcode) = 0"
  shows "nlines (fst (sq_iter e ctx i h)) \<le> 1"
proof (cases "sq_pass_valid e ctx i h")
  case True
  with assms show ?thesis
    by (simp add: sq_iter_valid sq_pass_line_def nlines_sqe_line nlines_invalid_sqe_line
        nlines_corrupted_sqe_line)
next
  case False
  then show ?thesis
    by (auto simp: sq_pass_valid_def sq_iter_skip_idx sq_iter_skip_opcode not_le not_less nlines_Nil)
qed

lemma sq_loop_nlines:
  assumes names: "\<forall>opcode. nlines (io_uring_get_opcode e opcode) = 0"
  shows "nlines (concat (sq_loop e ctx n i h)) \<le> unat n - unat i"
proof (induction "unat n - unat i" arbitrary: i h)
  case 0
  then have "\<not> i < n"
    by (simp add: word_less_nat_alt)
  then show ?case
    by (simp add: sq_loop_done nlines_Nil)
next
  case (Suc d)
  then have lt: "i < n"
    by (simp add: word_less_nat_alt)
  have d: "d = unat n - unat (i + 1)"
    using Suc.hyps(2) unat_inc_lt [OF lt] by simp
  obtain s c where it: "sq_iter e ctx i h = (s, c)"
    by (cases "sq_iter e ctx i h")
  have s: "nlines s \<le> 1"
    using sq_iter_nlines [OF names, of ctx i h] it by simp
  show ?case
  proof (cases c)
    case (SqNext h')
    with it lt s Suc.hyps(1) [OF d, of h'] Suc.hyps(2) unat_inc_lt [OF lt] show ?thesis
      by (simp add: sq_loop_next nlines_append)
  next
    case SqBreak
    with it lt s Suc.hyps(2) show ?thesis
      by (simp add: sq_loop_break nlines_append nlines_Nil)
  qed
qed

lemma sq_iter_plain:
  "sq_pass_plain e ctx i h \<Longrightarrow>
   sq_iter e ctx i h = (sq_pass_line e ctx i h (sq_shift_of e ctx \<noteq> 0), SqNext h)"
  by (auto simp: sq_pass_plain_def sq_iter_valid)

lemma sq_loop_plain:
  "(\<forall>k. i \<le> k \<and> k < n \<longrightarrow> sq_pass_plain e ctx k h) \<Longrightarrow>
   sq_loop e ctx n i h =
     map (\<lambda>k. sq_pass_line e ctx (of_nat k) h (sq_shift_of e ctx \<noteq> 0)) [unat i..<unat n]"
proof (induction "unat n - unat i" arbitrary: i)
  case 0
  then have "\<not> i < n"
    by (simp add: word_less_nat_alt)
  with 0 show ?case
    by (simp add: sq_loop_done)
next
  case (Suc d)
  then have lt: "i < n"
    by (simp add: word_less_nat_alt)
  have u: "unat (i + 1) = Suc (unat i)"
    using lt by (rule unat_inc_lt)
  have d: "d = unat n - unat (i + 1)"
    using Suc.hyps(2) u by simp
  have rest: "\<forall>k. i + 1 \<le> k \<and> k < n \<longrightarrow> sq_pass_plain e ctx k h"
  proof (intro allI impI)
    fix k assume k: "i + 1 \<le> k \<and> k < n"
    then have "i \<le> k" using u by (simp add: word_le_nat_alt)
    with k Suc.prems show "sq_pass_plain e ctx k h" by simp
  qed
  have here: "sq_pass_plain e ctx i h"
    using Suc.prems lt by simp
  have "unat i < unat n"
    using lt by (simp add: word_less_nat_alt)
  then have upt: "[unat i..<unat n] = unat i # [unat (i + 1)..<unat n]"
    using u by (simp add: upt_conv_Cons)
  show ?case
    using Suc.hyps(1) [OF d rest] lt sq_iter_plain [OF here]
    by (simp add: sq_loop_next upt)
qed

lemma nlines_concat_lines:
  "(\<And>s. s \<in> set ss \<Longrightarrow> nlines s = 1) \<Longrightarrow> nlines (concat ss) = length ss"
  by (induction ss) (simp_all add: nlines_Nil nlines_append)

lemma fmt_u_0: "fmt_u 0 = ''0''"
  by (subst fmt_u.simps) (simp add: digit_char_def)

lemma unat_min_le: "unat (min (a::u32) b) \<le> unat b"
  by (simp add: min_def word_le_nat_alt)

lemma names0: "\<forall>opcode. nlines (io_uring_get_opcode env0 opcode) = 0"
  by (simp add: env0_def nlines_text)

section \<open>The claims about the submission scan\<close>

text \<open>
  C3: a pass of the submission scan whose entry has an opcode at or above
  \<^verbatim>\<open>IORING_OP_LAST\<close> writes nothing and leaves by \<^verbatim>\<open>continue\<close>: the scan goes on with the
  next counter and the same \<open>sq_head\<close>, so this guard never ends the scan.
\<close>

theorem C3_opcode_out_of_range_skipped:
  assumes "i < n" and "IORING_OP_LAST e \<le> unat (sq_pass_opcode e ctx i sq_head)"
  shows "sq_iter e ctx i sq_head = ([], SqNext sq_head) \<and>
         sq_loop e ctx n i sq_head = [] # sq_loop e ctx n (i + 1) sq_head"
  using assms by (simp add: sq_iter_skip_opcode sq_loop_next)

theorem C3_witness:
  "sq_iter env0 (ctx_with_opcode 0 200) 0 0 = ([], SqNext 0) \<and>
   sq_loop env0 (ctx_with_opcode 0 200) 2 0 0 = [] # sq_loop env0 (ctx_with_opcode 0 200) 2 (0 + 1) 0"
proof -
  have lt: "(0 :: u32) < 2"
    by simp
  have op: "IORING_OP_LAST env0 \<le> unat (sq_pass_opcode env0 (ctx_with_opcode 0 200) 0 0)"
    by (simp add: sq_pass_opcode_def sq_pass_idx_def sq_idx_of_def sqe_slot_def sq_shift_of_def
        env0_def ctx_with_opcode_def ctx0_def sqe0_def)
  show ?thesis
    by (rule C3_opcode_out_of_range_skipped [OF lt op])
qed





text \<open>
  C7, as the code has it: with \<open>N\<close> enqueued submissions (the tail minus the head, at most
  the capacity) the section is the count line "SQEs:", a tab and \<open>N\<close>, followed by the
  texts of the scan; the scan makes at most \<open>N\<close> passes and writes at most \<open>N\<close> lines, since a
  pass whose index is beyond the mask or whose opcode is out of range writes nothing, and
  an invalid or corrupted entry ends the scan. When every one of the \<open>N\<close> passes gets
  past the guards and meets no 128-byte opcode on a ring without \<^verbatim>\<open>IORING_SETUP_SQE128\<close>,
  the scan writes exactly \<open>N\<close> lines, the \<open>k\<close>-th the line of the entry at head + \<open>k\<close>.
  With the head equal to the tail the section is the count line "SQEs: 0" alone. Opcode
  names are taken to hold no newline.
\<close>

theorem C7_scan_lines_bounded:
  assumes names: "\<forall>opcode. nlines (io_uring_get_opcode e opcode) = 0"
    and cap: "r_sq_tail r - r_sq_head r \<le> sq_entries ctx"
  shows "sq_section e ctx r =
           ''SQEs:'' @ [TAB] @ fmt_u (unat (r_sq_tail r - r_sq_head r)) @ [NL] @
           concat (sq_scan e ctx r) \<and>
         nlines (''SQEs:'' @ [TAB] @ fmt_u (unat (r_sq_tail r - r_sq_head r)) @ [NL]) = 1 \<and>
         length (sq_scan e ctx r) \<le> unat (r_sq_tail r - r_sq_head r) \<and>
         nlines (concat (sq_scan e ctx r)) \<le> unat (r_sq_tail r - r_sq_head r) \<and>
         ((\<forall>k. k < r_sq_tail r - r_sq_head r \<longrightarrow> sq_pass_plain e ctx k (r_sq_head r)) \<longrightarrow>
          sq_scan e ctx r =
            map (\<lambda>k. sq_pass_line e ctx (of_nat k) (r_sq_head r) (sq_shift_of e ctx \<noteq> 0))
              [0..<unat (r_sq_tail r - r_sq_head r)] \<and>
          nlines (concat (sq_scan e ctx r)) = unat (r_sq_tail r - r_sq_head r)) \<and>
         (r_sq_head r = r_sq_tail r \<longrightarrow>
          sq_scan e ctx r = [] \<and> sq_section e ctx r = ''SQEs:'' @ [TAB] @ ''0'' @ [NL])"
proof -
  let ?n = "r_sq_tail r - r_sq_head r"
  have scan: "sq_scan e ctx r = sq_loop e ctx ?n 0 (r_sq_head r)"
    using cap by (simp add: sq_scan_def min_def)
  have a: "length (sq_scan e ctx r) \<le> unat ?n"
    using sq_loop_length [of e ctx ?n 0 "r_sq_head r"] by (simp add: scan)
  have b: "nlines (concat (sq_scan e ctx r)) \<le> unat ?n"
    using sq_loop_nlines [OF names, of ctx ?n 0 "r_sq_head r"] by (simp add: scan)
  have c: "sq_scan e ctx r =
        map (\<lambda>k. sq_pass_line e ctx (of_nat k) (r_sq_head r) (sq_shift_of e ctx \<noteq> 0)) [0..<unat ?n] \<and>
      nlines (concat (sq_scan e ctx r)) = unat ?n"
    if plain: "\<forall>k. k < ?n \<longrightarrow> sq_pass_plain e ctx k (r_sq_head r)"
  proof -
    have m: "sq_scan e ctx r =
        map (\<lambda>k. sq_pass_line e ctx (of_nat k) (r_sq_head r) (sq_shift_of e ctx \<noteq> 0)) [0..<unat ?n]"
      using sq_loop_plain [of 0 ?n e ctx "r_sq_head r"] plain by (simp add: scan)
    have "nlines (concat (sq_scan e ctx r)) = length (sq_scan e ctx r)"
      unfolding m
      by (rule nlines_concat_lines) (auto simp: sq_pass_line_def nlines_sqe_line names)
    with m show ?thesis
      by simp
  qed
  have d: "sq_scan e ctx r = [] \<and> sq_section e ctx r = ''SQEs:'' @ [TAB] @ ''0'' @ [NL]"
    if "r_sq_head r = r_sq_tail r"
    using that by (simp add: sq_section_def scan sq_loop_done fmt_u_0)
  have cnt: "sq_section e ctx r =
      ''SQEs:'' @ [TAB] @ fmt_u (unat ?n) @ [NL] @ concat (sq_scan e ctx r)"
    by (simp add: sq_section_def)
  have cntl: "nlines (''SQEs:'' @ [TAB] @ fmt_u (unat ?n) @ [NL]) = 1"
    by (simp add: nlines_text)
  from cnt cntl a b c d show ?thesis
    by blast
qed


theorem C7_witness:
  "sq_section env0 ctx0 rings0 =
     ''SQEs:'' @ [TAB] @ ''2'' @ [NL] @ concat (sq_scan env0 ctx0 rings0) \<and>
   nlines (''SQEs:'' @ [TAB] @ ''2'' @ [NL]) = 1 \<and>
   length (sq_scan env0 ctx0 rings0) \<le> unat (r_sq_tail rings0 - r_sq_head rings0) \<and>
   nlines (concat (sq_scan env0 ctx0 rings0)) \<le> unat (r_sq_tail rings0 - r_sq_head rings0) \<and>
   sq_scan env0 ctx0 rings0 =
     map (\<lambda>k. sq_pass_line env0 ctx0 (of_nat k) (r_sq_head rings0) (sq_shift_of env0 ctx0 \<noteq> 0))
       [0..<unat (r_sq_tail rings0 - r_sq_head rings0)] \<and>
   nlines (concat (sq_scan env0 ctx0 rings0)) = unat (r_sq_tail rings0 - r_sq_head rings0) \<and>
   sq_scan env0 ctx0 (rings0\<lparr>r_sq_tail := 0\<rparr>) = [] \<and>
   sq_section env0 ctx0 (rings0\<lparr>r_sq_tail := 0\<rparr>) = ''SQEs:'' @ [TAB] @ ''0'' @ [NL]"
proof -
  have cap: "r_sq_tail rings0 - r_sq_head rings0 \<le> sq_entries ctx0"
    by (simp add: rings0_def ctx0_def)
  have plain: "\<forall>k. k < r_sq_tail rings0 - r_sq_head rings0 \<longrightarrow>
      sq_pass_plain env0 ctx0 k (r_sq_head rings0)"
    by (simp add: sq_pass_plain_def sq_pass_valid_def sq_pass_opcode_def sq_pass_idx_def
        sq_idx_of_def sqe_slot_def sq_shift_of_def env0_def ctx0_def sqe0_def rings0_def
        word_and_le1)
  have cap': "r_sq_tail (rings0\<lparr>r_sq_tail := 0\<rparr>) - r_sq_head (rings0\<lparr>r_sq_tail := 0\<rparr>) \<le> sq_entries ctx0"
    by (simp add: rings0_def ctx0_def)
  have empty: "r_sq_head (rings0\<lparr>r_sq_tail := 0\<rparr>) = r_sq_tail (rings0\<lparr>r_sq_tail := 0\<rparr>)"
    by (simp add: rings0_def)
  have two: "fmt_u (unat (r_sq_tail rings0 - r_sq_head rings0)) = ''2''"
    by code_simp
  from C7_scan_lines_bounded [OF names0 cap, unfolded two] plain
    C7_scan_lines_bounded [OF names0 cap'] empty
  show ?thesis
    by blast
qed


text \<open>
  The claim C7 as the spec states it (exactly \<open>N\<close> lines for \<open>N\<close> enqueued submissions)
  fails on a ring with one enqueued entry whose opcode, 200, is not below
  \<^verbatim>\<open>IORING_OP_LAST\<close>: the scan writes no line.
\<close>

theorem C7_counterexample:
  "r_sq_tail (rings0\<lparr>r_sq_tail := 1\<rparr>) - r_sq_head (rings0\<lparr>r_sq_tail := 1\<rparr>)
     \<le> sq_entries (ctx_with_opcode 0 200) \<and>
   unat (r_sq_tail (rings0\<lparr>r_sq_tail := 1\<rparr>) - r_sq_head (rings0\<lparr>r_sq_tail := 1\<rparr>)) = 1 \<and>
   nlines (concat (sq_scan env0 (ctx_with_opcode 0 200) (rings0\<lparr>r_sq_tail := 1\<rparr>))) = 0"
  by code_simp

text \<open>
  C9: whatever the head and tail read from the shared memory, the scan makes at most
  \<^verbatim>\<open>ctx->sq_entries\<close> passes and writes at most that many lines: its bound is the minimum
  of the observed difference and the capacity. Opcode names are taken to hold no newline.
\<close>

theorem C9_scan_capped_at_capacity:
  assumes names: "\<forall>opcode. nlines (io_uring_get_opcode e opcode) = 0"
  shows "length (sq_scan e ctx r) \<le> unat (sq_entries ctx) \<and>
         nlines (concat (sq_scan e ctx r)) \<le> unat (sq_entries ctx)"
proof -
  let ?n = "min (r_sq_tail r - r_sq_head r) (sq_entries ctx)"
  have "length (sq_scan e ctx r) \<le> unat ?n"
    using sq_loop_length [of e ctx ?n 0 "r_sq_head r"] by (simp add: sq_scan_def)
  moreover have "nlines (concat (sq_scan e ctx r)) \<le> unat ?n"
    using sq_loop_nlines [OF names, of ctx ?n 0 "r_sq_head r"] by (simp add: sq_scan_def)
  moreover have "unat ?n \<le> unat (sq_entries ctx)"
    by (rule unat_min_le)
  ultimately show ?thesis
    by simp
qed


theorem C9_witness:
  "sq_entries ctx0 < r_sq_tail (rings0\<lparr>r_sq_tail := 100\<rparr>) - r_sq_head (rings0\<lparr>r_sq_tail := 100\<rparr>) \<and>
   length (sq_scan env0 ctx0 (rings0\<lparr>r_sq_tail := 100\<rparr>)) \<le> unat (sq_entries ctx0) \<and>
   nlines (concat (sq_scan env0 ctx0 (rings0\<lparr>r_sq_tail := 100\<rparr>))) \<le> unat (sq_entries ctx0)"
proof -
  have "sq_entries ctx0 < r_sq_tail (rings0\<lparr>r_sq_tail := 100\<rparr>) - r_sq_head (rings0\<lparr>r_sq_tail := 100\<rparr>)"
    by (simp add: rings0_def ctx0_def)
  with C9_scan_capped_at_capacity [OF names0, of ctx0 "rings0\<lparr>r_sq_tail := 100\<rparr>"]
  show ?thesis
    by simp
qed

section \<open>Passes of the completion scan\<close>

lemma nlines_cqe_fields: "nlines (cqe_fields ctx r h) = 0"
  by (simp add: cqe_fields_def Let_def nlines_text)

lemma nlines_cqe_extra: "nlines (cqe_extra cqe) = 1"
  by (simp add: cqe_extra_def nlines_text)

lemma cq_loop_done: "\<not> h < t \<Longrightarrow> cq_loop e ctx r t h = Some ([], h)"
  by (subst cq_loop.simps) simp

lemma cq_loop_step:
  "h < t \<Longrightarrow> cq_loop e ctx r t (cq_iter_head e ctx r h) = Some (ss, h') \<Longrightarrow>
   cq_loop e ctx r t h = Some (cq_iter_text e ctx r h # ss, h')"
  by (subst cq_loop.simps) simp

lemma cq_iter_head_unat:
  assumes "h < t" and "t < 0xFFFFFFFF"
  shows "unat h < unat (cq_iter_head e ctx r h)"
proof -
  from assms have "unat h < unat t" and "unat t < 4294967295"
    by (simp_all add: word_less_nat_alt)
  then have b: "unat h + 2 < 2 ^ 32"
    by simp
  then have "unat (h + 1) = unat h + 1"
    by (simp add: unat_word_ariths)
  moreover from b have "unat (h + 1 + 1) = unat h + 2"
    by (simp add: unat_word_ariths)
  ultimately show ?thesis
    by (simp add: cq_iter_head_def)
qed

lemma cq_loop_returns:
  assumes t: "t < 0xFFFFFFFF"
  shows "\<exists>ss h'. cq_loop e ctx r t h = Some (ss, h')"
proof (induction "unat t - unat h" arbitrary: h rule: less_induct)
  case less
  show ?case
  proof (cases "h < t")
    case False
    then show ?thesis
      by (simp add: cq_loop_done)
  next
    case True
    then have "unat h < unat t"
      by (simp add: word_less_nat_alt)
    with cq_iter_head_unat [OF True t, of e ctx r]
    have "unat t - unat (cq_iter_head e ctx r h) < unat t - unat h"
      by simp
    from less [OF this] obtain ss h' where
      "cq_loop e ctx r t (cq_iter_head e ctx r h) = Some (ss, h')"
      by blast
    with True show ?thesis
      by (simp add: cq_loop_step)
  qed
qed

lemma poll_chain_returns:
  "(\<forall>req \<in> set reqs. tctx req \<noteq> None) \<Longrightarrow> \<exists>s. poll_chain reqs = Inr s"
  by (induction reqs) auto

lemma mutex_trylock_free: "mutex_trylock cur None = (True, Some cur)"
  by (simp add: mutex_trylock_def)

lemma mutex_trylock_held: "lk \<noteq> None \<Longrightarrow> mutex_trylock cur lk = (False, lk)"
  by (cases lk) (simp_all add: mutex_trylock_def)

text \<open>
  The scan need not return: on a ring with \<^verbatim>\<open>IORING_SETUP_CQE32\<close>, a tail of \<open>0xFFFFFFFF\<close>
  and an even head, every pass adds two to the head, which wraps from \<open>0xFFFFFFFE\<close> to \<open>0\<close>
  and never reaches the tail.
\<close>

lemma even_lt_max: "even (h::u32) \<Longrightarrow> h < 0xFFFFFFFF"
proof -
  assume e: "even h"
  have "h \<noteq> 0xFFFFFFFF"
    using e by auto
  moreover have "unat h < 2 ^ 32"
    using unsigned_less [of h] by simp
  then have "h \<le> 0xFFFFFFFF"
    by (simp add: word_le_nat_alt)
  ultimately show ?thesis
    by simp
qed

lemma cq_loop_Some_not_cycle:
  assumes ret: "cq_loop e ctx r t h = Some y"
  shows "\<not> (ctx_flags ctx AND IORING_SETUP_CQE32 e \<noteq> 0 \<and> t = 0xFFFFFFFF \<and> even h)"
proof (rule cq_loop.raw_induct [where P = "\<lambda>e ctx r t h y.
    \<not> (ctx_flags ctx AND IORING_SETUP_CQE32 e \<noteq> 0 \<and> t = (0xFFFFFFFF :: u32) \<and> even (h :: u32))",
    OF _ ret])
  fix f e ctx r and t h :: u32 and y :: "string list \<times> u32"
  assume IH: "\<And>e ctx r t h y. f e ctx r t h = Some y \<Longrightarrow>
      \<not> (ctx_flags ctx AND IORING_SETUP_CQE32 e \<noteq> 0 \<and> t = (0xFFFFFFFF :: u32) \<and> even (h :: u32))"
    and body: "(if h < t then
        Option.bind (f e ctx r t (cq_iter_head e ctx r h))
          (\<lambda>(ss, h'). Some (cq_iter_text e ctx r h # ss, h'))
      else Some ([], h)) = Some y"
  show "\<not> (ctx_flags ctx AND IORING_SETUP_CQE32 e \<noteq> 0 \<and> t = 0xFFFFFFFF \<and> even h)"
  proof
    assume a: "ctx_flags ctx AND IORING_SETUP_CQE32 e \<noteq> 0 \<and> t = 0xFFFFFFFF \<and> even h"
    then have lt: "h < t"
      by (simp add: even_lt_max)
    from a have nh: "cq_iter_head e ctx r h = h + 1 + 1"
      by (simp add: cq_iter_head_def cqe32_of_def)
    from body lt nh obtain y' where "f e ctx r t (h + 1 + 1) = Some y'"
      by (auto simp: bind_eq_Some_conv)
    then have "\<not> (ctx_flags ctx AND IORING_SETUP_CQE32 e \<noteq> 0 \<and> t = 0xFFFFFFFF \<and>
        even (h + 1 + 1))"
      by (rule IH)
    moreover from a have "even (h + 1 + 1)"
      by simp
    ultimately show False
      using a by blast
  qed
qed

lemma cq_loop_diverges:
  assumes "ctx_flags ctx AND IORING_SETUP_CQE32 e \<noteq> 0" and "even h"
  shows "cq_loop e ctx r 0xFFFFFFFF h = None"
proof (cases "cq_loop e ctx r 0xFFFFFFFF h")
  case None
  then show ?thesis .
next
  case (Some y)
  from cq_loop_Some_not_cycle [OF this] assms show ?thesis
    by simp
qed

section \<open>The registered tables\<close>












section \<open>The reporter returns\<close>

lemma show_body_returns:
  assumes "rings ctx = Some r" and "r_cq_tail r < 0xFFFFFFFF"
    and "\<forall>req \<in> set (poll_requests ctx). tctx req \<noteq> None"
  shows "\<exists>text. do_io_uring_show_fdinfo e ctx = Some (Inr text)"
proof -
  from cq_loop_returns [OF assms(2)] obtain ss h' where
    "cq_scan e ctx r = Some (ss, h')"
    unfolding cq_scan_def by blast
  moreover from poll_chain_returns [OF assms(3)] obtain s where
    "poll_chain (poll_requests ctx) = Inr s" ..
  ultimately show ?thesis
    using assms(1) by (simp add: do_io_uring_show_fdinfo_def poll_section_def)
qed

section \<open>The claims about the completion scan\<close>

text \<open>
  C10: a pass of the completion scan for an entry read as 32-byte-extended writes the
  fields, the two extra fields ended by a newline, and then the newline that every pass
  writes: two newlines in a row, a blank line after the entry. A pass for a normal entry
  writes the fields and one newline: exactly one line.
\<close>

theorem C10_cqe32_blank_line:
  "cq_iter_text e ctx r cq_head =
     (if cqe32_of e ctx (cqe_at ctx r cq_head)
      then cqe_fields ctx r cq_head @
           '', extra1:'' @ fmt_u (unat (big_cqe (cqe_at ctx r cq_head) 0)) @
           '', extra2:'' @ fmt_u (unat (big_cqe (cqe_at ctx r cq_head) 1)) @ [NL, NL]
      else cqe_fields ctx r cq_head @ [NL]) \<and>
   nlines (cqe_fields ctx r cq_head) = 0 \<and>
   nlines (cq_iter_text e ctx r cq_head) = (if cqe32_of e ctx (cqe_at ctx r cq_head) then 2 else 1)"
  by (simp add: cq_iter_text_def cqe_extra_def nlines_cqe_fields nlines_append nlines_Cons
      nlines_Nil nlines_fmt_u NL_def)

theorem C10_witness:
  "cq_iter_text env0 ctx0 rings0 1 =
     cqe_fields ctx0 rings0 1 @
     '', extra1:'' @ fmt_u (unat (big_cqe (cqe_at ctx0 rings0 1) 0)) @
     '', extra2:'' @ fmt_u (unat (big_cqe (cqe_at ctx0 rings0 1) 1)) @ [NL, NL] \<and>
   nlines (cq_iter_text env0 ctx0 rings0 1) = 2 \<and>
   cq_iter_text env0 ctx0 rings0 0 = cqe_fields ctx0 rings0 0 @ [NL] \<and>
   nlines (cq_iter_text env0 ctx0 rings0 0) = 1"
proof -
  have wide: "cqe32_of env0 ctx0 (cqe_at ctx0 rings0 1)"
    by (simp add: cqe32_of_def cqe_at_def env0_def ctx0_def rings0_def cqe0_def)
  have normal: "\<not> cqe32_of env0 ctx0 (cqe_at ctx0 rings0 0)"
    by (simp add: cqe32_of_def cqe_at_def env0_def ctx0_def rings0_def cqe0_def)
  have a: "cq_iter_text env0 ctx0 rings0 1 =
       cqe_fields ctx0 rings0 1 @
       '', extra1:'' @ fmt_u (unat (big_cqe (cqe_at ctx0 rings0 1) 0)) @
       '', extra2:'' @ fmt_u (unat (big_cqe (cqe_at ctx0 rings0 1) 1)) @ [NL, NL] \<and>
     nlines (cqe_fields ctx0 rings0 1) = 0 \<and>
     nlines (cq_iter_text env0 ctx0 rings0 1) = 2"
    by (rule C10_cqe32_blank_line [of env0 ctx0 rings0 1, unfolded if_P [OF wide]])
  have b: "cq_iter_text env0 ctx0 rings0 0 = cqe_fields ctx0 rings0 0 @ [NL] \<and>
     nlines (cqe_fields ctx0 rings0 0) = 0 \<and>
     nlines (cq_iter_text env0 ctx0 rings0 0) = 1"
    by (rule C10_cqe32_blank_line [of env0 ctx0 rings0 0, unfolded if_not_P [OF normal]])
  from a b show ?thesis
    by blast
qed

text \<open>
  C4, where the code departs from the claim: the loop runs \<^verbatim>\<open>while (cq_head < cq_tail)\<close>,
  an order that does not survive the wrap of the cursors. With the head at \<open>0xFFFFFFFF\<close>
  and the tail at \<open>1\<close> two entries are enqueued (the count line says 2), and the scan makes
  no pass: it consumes no slot, not tail minus head.
\<close>

theorem C4_wrapped_cursors_scan_nothing:
  "r_cq_tail rings_wrapped - r_cq_head rings_wrapped = 2 \<and>
   cq_count_line rings_wrapped = ''CQEs:'' @ [TAB] @ ''2'' @ [NL] \<and>
   cq_scan env0 ctx0 rings_wrapped = Some ([], r_cq_head rings_wrapped)"
  by code_simp

section \<open>The claim about the registered tables\<close>



section \<open>The claims about the locks\<close>

text \<open>
  The lock discipline of \<^verbatim>\<open>io_uring_show_fdinfo\<close>: one \<^verbatim>\<open>mutex_trylock\<close> on \<^verbatim>\<open>uring_lock\<close>.
  On a held lock the call returns with the sink and the ring as they were. On a free lock,
  when the body returns its sections (on the ring as the body sees it, the lock held by
  the caller), the sink gets all of them in order and the lock is free again after
  exactly a trylock and an unlock.
\<close>

lemma show_fdinfo_lock_held:
  "uring_lock ctx \<noteq> None \<Longrightarrow>
   io_uring_show_fdinfo e cur m ctx =
     Some (Inr \<lparr>res_ctx = ctx, res_lock_ops = [Trylock False], res_sink = m\<rparr>)"
  by (simp add: io_uring_show_fdinfo_def mutex_trylock_held)

lemma show_fdinfo_lock_free:
  assumes free: "uring_lock ctx = None"
    and r: "rings ctx = Some r"
    and cq: "cq_scan e (ctx\<lparr>uring_lock := Some cur\<rparr>) r = Some (cq_texts, cq_head)"
    and poll: "poll_section (ctx\<lparr>uring_lock := Some cur\<rparr>) = Inr poll_text"
  shows "io_uring_show_fdinfo e cur m ctx =
     Some (Inr \<lparr>res_ctx = ctx, res_lock_ops = [Trylock True, Unlock],
       res_sink = m @
         cursors_text (ctx\<lparr>uring_lock := Some cur\<rparr>) r @
         sq_section e (ctx\<lparr>uring_lock := Some cur\<rparr>) r @
         cq_count_line r @ concat cq_texts @
         sqpoll_text e (ctx\<lparr>uring_lock := Some cur\<rparr>) @
         files_section e (ctx\<lparr>uring_lock := Some cur\<rparr>) @
         bufs_section (ctx\<lparr>uring_lock := Some cur\<rparr>) @
         poll_text @
         overflow_section (ctx\<lparr>uring_lock := Some cur\<rparr>) @
         napi_show_fdinfo e (ctx\<lparr>uring_lock := Some cur\<rparr>)\<rparr>)"
proof -
  from free have same: "ctx\<lparr>uring_lock := None\<rparr> = ctx"
    by simp
  from free r cq poll same show ?thesis
    by (simp add: io_uring_show_fdinfo_def mutex_trylock_free mutex_unlock_def
        do_io_uring_show_fdinfo_def)
qed

lemma show_fdinfo_returns:
  assumes "uring_lock ctx = None" and "rings ctx = Some r" and "r_cq_tail r < 0xFFFFFFFF"
    and "\<forall>req \<in> set (poll_requests ctx). tctx req \<noteq> None"
  shows "\<exists>out. io_uring_show_fdinfo e cur m ctx =
     Some (Inr \<lparr>res_ctx = ctx, res_lock_ops = [Trylock True, Unlock], res_sink = m @ out\<rparr>)"
proof -
  let ?ctx = "ctx\<lparr>uring_lock := Some cur\<rparr>"
  from assms have "rings ?ctx = Some r" and "r_cq_tail r < 0xFFFFFFFF"
    and "\<forall>req \<in> set (poll_requests ?ctx). tctx req \<noteq> None"
    by (simp_all add: poll_requests_def)
  from show_body_returns [OF this] obtain out where
    body: "do_io_uring_show_fdinfo e ?ctx = Some (Inr out)" ..
  from assms(1) have same: "ctx\<lparr>uring_lock := None\<rparr> = ctx"
    by simp
  from assms(1) body same have "io_uring_show_fdinfo e cur m ctx =
      Some (Inr \<lparr>res_ctx = ctx, res_lock_ops = [Trylock True, Unlock], res_sink = m @ out\<rparr>)"
    by (simp add: io_uring_show_fdinfo_def mutex_trylock_free mutex_unlock_def)
  then show ?thesis ..
qed

text \<open>
  C1, where the code departs from the claim: a call whose trylock succeeds need not
  return. On a ring with \<^verbatim>\<open>IORING_SETUP_CQE32\<close> and one completion enqueued with the head at
  \<open>0xFFFFFFFE\<close> and the tail at \<open>0xFFFFFFFF\<close>, the lock is free and the trylock succeeds,
  and the completion scan, which runs \<^verbatim>\<open>while (cq_head < cq_tail)\<close> and adds two to
  \<open>cq_head\<close> in every pass, wraps from \<open>0xFFFFFFFE\<close> to \<open>0\<close> and never reaches the tail:
  the call does not return, the snapshot is not completed and the lock is not released.
\<close>

theorem C1_cqe32_scan_never_unlocks:
  "uring_lock ctx_cqe32_last = None \<and>
   mutex_trylock 1 (uring_lock ctx_cqe32_last) = (True, Some 1) \<and>
   do_io_uring_show_fdinfo env0 (ctx_cqe32_last\<lparr>uring_lock := Some 1\<rparr>) = None \<and>
   io_uring_show_fdinfo env0 1 ''x'' ctx_cqe32_last = None"
proof -
  let ?ctx = "ctx_cqe32_last\<lparr>uring_lock := Some 1\<rparr>"
  let ?r = "rings0\<lparr>r_cq_head := 0xFFFFFFFE, r_cq_tail := 0xFFFFFFFF\<rparr>"
  have free: "uring_lock ctx_cqe32_last = None"
    by (simp add: ctx_cqe32_last_def ctx0_def)
  have r: "rings ?ctx = Some ?r"
    by (simp add: ctx_cqe32_last_def)
  have wide: "ctx_flags ?ctx AND IORING_SETUP_CQE32 env0 \<noteq> 0"
    by (simp add: ctx_cqe32_last_def env0_def)
  have ev: "even (0xFFFFFFFE :: u32)"
    by simp
  have "cq_loop env0 ?ctx ?r 0xFFFFFFFF 0xFFFFFFFE = None"
    using wide ev by (rule cq_loop_diverges)
  then have scan: "cq_scan env0 ?ctx ?r = None"
    by (simp add: cq_scan_def)
  from r scan have body: "do_io_uring_show_fdinfo env0 ?ctx = None"
    by (simp add: do_io_uring_show_fdinfo_def)
  from free have taken: "mutex_trylock 1 (uring_lock ctx_cqe32_last) = (True, Some 1)"
    by (simp add: mutex_trylock_free)
  from taken body have "io_uring_show_fdinfo env0 1 ''x'' ctx_cqe32_last = None"
    by (simp add: io_uring_show_fdinfo_def)
  with free taken body show ?thesis
    by simp
qed

text \<open>
  C6: \<^verbatim>\<open>io_uring_dump_reqs\<close> makes no operation on \<^verbatim>\<open>uring_lock\<close>: it asserts that the
  caller holds it. Called by a task that does not hold the lock (the lock free, or held by
  another task), it ends in the assertion failure and writes no log; called by the holder,
  it returns its log and leaves the lock with the caller.
\<close>

theorem C6_dump_asserts_lock_held:
  "(uring_lock ctx \<noteq> Some cur \<longrightarrow>
      io_uring_dump_reqs e cur ctxp ctx prefix = Inl LockNotHeld) \<and>
   (uring_lock ctx = Some cur \<longrightarrow>
      (\<exists>res. io_uring_dump_reqs e cur ctxp ctx prefix = Inr res \<and>
         dump_lock_ops res = [] \<and> dump_lock res = Some cur))"
  by (simp add: io_uring_dump_reqs_def lockdep_assert_held_def)

theorem C6_witness:
  "io_uring_dump_reqs env0 1 4096 ctx0 ''stall'' = Inl LockNotHeld \<and>
   io_uring_dump_reqs env0 1 4096 (ctx0\<lparr>uring_lock := Some 2\<rparr>) ''stall'' = Inl LockNotHeld \<and>
   (\<exists>res. io_uring_dump_reqs env0 1 4096 (ctx0\<lparr>uring_lock := Some 1\<rparr>) ''stall'' = Inr res \<and>
      dump_lock_ops res = [] \<and> dump_lock res = Some 1)"
proof -
  have a: "uring_lock ctx0 \<noteq> Some 1"
    by (simp add: ctx0_def)
  have b: "uring_lock (ctx0\<lparr>uring_lock := Some 2\<rparr>) \<noteq> Some 1"
    by simp
  have c: "uring_lock (ctx0\<lparr>uring_lock := Some 1\<rparr>) = Some 1"
    by simp
  from C6_dump_asserts_lock_held [where ctx = ctx0 and cur = 1 and e = env0 and ctxp = 4096 and prefix = "''stall''"] a
    C6_dump_asserts_lock_held [where ctx = "ctx0\<lparr>uring_lock := Some 2\<rparr>" and cur = 1 and e = env0 and ctxp = 4096
      and prefix = "''stall''"] b
    C6_dump_asserts_lock_held [where ctx = "ctx0\<lparr>uring_lock := Some 1\<rparr>" and cur = 1 and e = env0 and ctxp = 4096
      and prefix = "''stall''"] c
  show ?thesis
    by blast
qed

end
